theory Spec2Isabelle
  imports Complex_Main "HOL-Library.Log_Nat"
begin

section \<open>BabySQL: a fluent builder of parameterised SQL statements\<close>

text \<open>
  A shallow embedding of \<^verbatim>\<open>src/index.ts\<close>: the class \<^verbatim>\<open>BabySQLBuilder\<close>, its
  configuration methods, the terminal method \<^verbatim>\<open>build\<close> and the factory \<^verbatim>\<open>BabySQL\<close>.
  A JavaScript string is a list of characters, template literals and \<^verbatim>\<open>+=\<close> are list
  append. Every \<^verbatim>\<open>throw\<close> of the source is a value \<open>Inl e\<close>; the private fields of the
  class are the fields of a record that each method returns updated.
\<close>

subsection \<open>Values\<close>

text \<open>
  A JavaScript \<^verbatim>\<open>number\<close> is an IEEE double: a finite value, which is always a rational
  number, or one of NaN, +Infinity, -Infinity. The two zeros are identified: no operation
  of this program tells them apart.
\<close>

datatype number = Finite rat | NaN | PosInfinity | NegInfinity

text \<open>\<^verbatim>\<open>type Primitive = string | number | boolean | Date | null\<close>; a date is its time value.\<close>

datatype primitive =
    PString string
  | PNumber number
  | PBoolean bool
  | PDate number
  | PNull

datatype query_type = Select | Count | Insert | Update | Delete

datatype order_direction = ASC | DESC

datatype where_operator =
    OpEq | OpNe | OpLtGt | OpGt | OpGe | OpLt | OpLe | OpLike | OpNotLike | OpIs | OpIsNot

datatype connector = AND | OR

datatype like_mode = Both | Left | Right

text \<open>The text a value of these string-literal types stands for in a template literal.\<close>

fun operator_text :: "where_operator \<Rightarrow> string" where
  "operator_text OpEq = ''=''"
| "operator_text OpNe = ''!=''"
| "operator_text OpLtGt = ''<>''"
| "operator_text OpGt = ''>''"
| "operator_text OpGe = ''>=''"
| "operator_text OpLt = ''<''"
| "operator_text OpLe = ''<=''"
| "operator_text OpLike = ''LIKE''"
| "operator_text OpNotLike = ''NOT LIKE''"
| "operator_text OpIs = ''IS''"
| "operator_text OpIsNot = ''IS NOT''"

fun connector_text :: "connector \<Rightarrow> string" where
  "connector_text AND = ''AND''"
| "connector_text OR = ''OR''"

fun direction_text :: "order_direction \<Rightarrow> string" where
  "direction_text ASC = ''ASC''"
| "direction_text DESC = ''DESC''"

text \<open>\<^verbatim>\<open>Array.prototype.join\<close> on an array of strings.\<close>

fun join :: "string \<Rightarrow> string list \<Rightarrow> string" where
  "join sep [] = []"
| "join sep [x] = x"
| "join sep (x # y # ys) = x @ sep @ join sep (y # ys)"

subsection \<open>Numbers: \<^verbatim>\<open>n | 0\<close> and \<^verbatim>\<open>Math.max\<close>\<close>

definition trunc :: "rat \<Rightarrow> int" where
  "trunc x = (if x < 0 then \<lceil>x\<rceil> else \<lfloor>x\<rfloor>)"

text \<open>
  \<^verbatim>\<open>n | 0\<close> is the abstract operation ToInt32 of the language: NaN and the infinities
  give 0; a finite value is truncated toward zero, reduced modulo \<open>2^32\<close> and read as a
  signed 32-bit integer.
\<close>

fun ToInt32 :: "number \<Rightarrow> int" where
  "ToInt32 (Finite x) =
     (let m = trunc x mod 2 ^ 32 in if m \<ge> 2 ^ 31 then m - 2 ^ 32 else m)"
| "ToInt32 NaN = 0"
| "ToInt32 PosInfinity = 0"
| "ToInt32 NegInfinity = 0"

text \<open>
  The product of two integers as a double: exact below \<open>2^53\<close>, otherwise rounded to 53
  significant bits, ties to even. Only \<^verbatim>\<open>paginate\<close> multiplies, and its operands are
  non-negative.
\<close>

definition round_double :: "int \<Rightarrow> int" where
  "round_double n =
     (if n < 2 ^ 53 then n
      else let e = nat (bitlen n - 53);
               q = n div 2 ^ e;
               r = n mod 2 ^ e
           in if 2 * r > 2 ^ e \<or> (2 * r = 2 ^ e \<and> odd q) then (q + 1) * 2 ^ e else q * 2 ^ e)"

subsection \<open>Objects: \<^verbatim>\<open>Record<string, Primitive>\<close>\<close>

text \<open>
  An object is the list of its own properties in the order they were created (insertion
  order); a well-formed object has distinct keys. The language enumerates own string keys
  (\<^verbatim>\<open>Object.keys\<close>, spread) with the array indices first, in ascending numeric order, and
  the other keys after them in creation order. An array index is the canonical decimal
  numeral of an integer below \<open>2^32 - 1\<close>.
\<close>

type_synonym jsobject = "(string \<times> primitive) list"

definition is_digit :: "char \<Rightarrow> bool" where
  "is_digit c \<longleftrightarrow> c \<in> set ''0123456789''"

definition index_value :: "string \<Rightarrow> int" where
  "index_value k = foldl (\<lambda>a c. 10 * a + (of_char c - 48)) 0 k"

definition is_array_index :: "string \<Rightarrow> bool" where
  "is_array_index k \<longleftrightarrow>
     k \<noteq> [] \<and> list_all is_digit k \<and> (k = ''0'' \<or> hd k \<noteq> CHR ''0'') \<and> index_value k < 2 ^ 32 - 1"

definition Object_keys :: "jsobject \<Rightarrow> string list" where
  "Object_keys obj =
     sort_key index_value (filter is_array_index (map fst obj))
       @ filter (\<lambda>k. \<not> is_array_index k) (map fst obj)"

text \<open>
  \<^verbatim>\<open>obj[k]\<close>. A missing key reads as \<^verbatim>\<open>undefined\<close> in the language; \<^verbatim>\<open>build\<close> only reads
  keys that \<^verbatim>\<open>Object.keys\<close> returned, where the second branch is never taken
  (lemma \<open>prop_get_own\<close>).
\<close>

definition prop_get :: "jsobject \<Rightarrow> string \<Rightarrow> primitive" where
  "prop_get obj k = (case map_of obj k of Some v \<Rightarrow> v | None \<Rightarrow> PNull)"

text \<open>\<^verbatim>\<open>{ ...obj }\<close>: a fresh object that receives the own properties in enumeration order.\<close>

definition spread :: "jsobject \<Rightarrow> jsobject" where
  "spread obj = map (\<lambda>k. (k, prop_get obj k)) (Object_keys obj)"

subsection \<open>The builder\<close>

record where_fragment =
  w_sql :: string
  w_params :: "primitive list"
  w_connector :: connector

record order_entry =
  o_col :: string
  o_dir :: order_direction

record built_query =
  sql :: string
  params :: "primitive list"

text \<open>
  The private fields of \<^verbatim>\<open>BabySQLBuilder\<close>, with the prefix \<open>b_\<close> for the leading
  underscore; \<^verbatim>\<open>_data\<close> is \<^verbatim>\<open>null\<close> or an object, \<^verbatim>\<open>_limit\<close> and \<^verbatim>\<open>_offset\<close> are
  \<^verbatim>\<open>undefined\<close> or a number.
\<close>

record builder =
  b_type :: query_type
  b_table :: string
  b_columns :: "string list"
  b_data :: "jsobject option"
  b_wheres :: "where_fragment list"
  b_order :: "order_entry list"
  b_limit :: "number option"
  b_offset :: "number option"
  b_countColumn :: string
  b_countAlias :: string
  b_allowUnsafe :: bool
  b_debug :: bool

text \<open>The constructor, with the field initialisers of the class.\<close>

definition new_builder :: "query_type \<Rightarrow> string \<Rightarrow> builder" where
  "new_builder ty tbl =
     \<lparr> b_type = ty, b_table = tbl, b_columns = [], b_data = None, b_wheres = [],
       b_order = [], b_limit = None, b_offset = None, b_countColumn = ''*'',
       b_countAlias = ''total'', b_allowUnsafe = False, b_debug = False \<rparr>"

subsection \<open>Configuration methods\<close>

text \<open>
  Each method returns \<^verbatim>\<open>this\<close>: the updated builder. Default arguments are filled in by
  the caller (\<^verbatim>\<open>connector = 'AND'\<close>, \<^verbatim>\<open>mode = 'both'\<close>, \<^verbatim>\<open>dir = 'ASC'\<close>, \<^verbatim>\<open>params = []\<close>,
  \<^verbatim>\<open>col = '*'\<close>, \<^verbatim>\<open>alias = 'total'\<close>, \<^verbatim>\<open>enable = true\<close>). No body contains a \<^verbatim>\<open>throw\<close>.

  A builder of this model is the state as \<^verbatim>\<open>build\<close> reads it: every array stands for
  what it holds at that time. \<^verbatim>\<open>columns\<close>, \<^verbatim>\<open>whereIn\<close> (for a non-empty array) and
  \<^verbatim>\<open>whereRaw\<close> keep the array of the caller itself, not a copy of it, so the builder
  that a method returns here is the state right after the call; a caller that changes
  such an array later moves the builder to another state, whose list holds the new
  contents beside the SQL that was fixed at the call. The properties of \<^verbatim>\<open>build\<close> below
  are stated for every state, whatever led to it.
\<close>

definition countColumn :: "string \<Rightarrow> string \<Rightarrow> builder \<Rightarrow> builder" where
  "countColumn col alias b = b\<lparr> b_countColumn := col, b_countAlias := alias \<rparr>"

definition data :: "jsobject \<Rightarrow> builder \<Rightarrow> builder" where
  "data obj b = b\<lparr> b_data := Some (spread obj) \<rparr>"

datatype columns_arg = ColumnArray "string list" | ColumnName string

fun columns :: "columns_arg \<Rightarrow> builder \<Rightarrow> builder" where
  "columns (ColumnArray cols) b = b\<lparr> b_columns := cols \<rparr>"
| "columns (ColumnName col) b = b\<lparr> b_columns := [col] \<rparr>"

definition where' :: "string \<Rightarrow> where_operator \<Rightarrow> primitive \<Rightarrow> connector \<Rightarrow> builder \<Rightarrow> builder" where
  "where' column op v c b =
     b\<lparr> b_wheres := b_wheres b @
          [\<lparr> w_sql = column @ '' '' @ operator_text op @ '' ?'', w_params = [v], w_connector = c \<rparr>] \<rparr>"

fun like_value :: "like_mode \<Rightarrow> string \<Rightarrow> string" where
  "like_value Both val = ''%'' @ val @ ''%''"
| "like_value Left val = ''%'' @ val"
| "like_value Right val = val @ ''%''"

definition whereLike :: "string \<Rightarrow> string \<Rightarrow> like_mode \<Rightarrow> connector \<Rightarrow> builder \<Rightarrow> builder" where
  "whereLike column v mode c b =
     b\<lparr> b_wheres := b_wheres b @
          [\<lparr> w_sql = column @ '' LIKE ?'', w_params = [PString (like_value mode v)],
             w_connector = c \<rparr>] \<rparr>"

definition whereIn :: "string \<Rightarrow> primitive list \<Rightarrow> connector \<Rightarrow> builder \<Rightarrow> builder" where
  "whereIn column vs c b =
     (if length vs = 0
      then b\<lparr> b_wheres := b_wheres b @ [\<lparr> w_sql = ''1=0'', w_params = [], w_connector = c \<rparr>] \<rparr>
      else let placeholders = join '', '' (map (\<lambda>_. ''?'') vs)
           in b\<lparr> b_wheres := b_wheres b @
                [\<lparr> w_sql = column @ '' IN ('' @ placeholders @ '')'', w_params = vs,
                   w_connector = c \<rparr>] \<rparr>)"

definition whereRaw :: "string \<Rightarrow> primitive list \<Rightarrow> connector \<Rightarrow> builder \<Rightarrow> builder" where
  "whereRaw s ps c b =
     b\<lparr> b_wheres := b_wheres b @ [\<lparr> w_sql = ''('' @ s @ '')'', w_params = ps, w_connector = c \<rparr>] \<rparr>"

definition orderBy :: "string \<Rightarrow> order_direction \<Rightarrow> builder \<Rightarrow> builder" where
  "orderBy column dir b = b\<lparr> b_order := b_order b @ [\<lparr> o_col = column, o_dir = dir \<rparr>] \<rparr>"

definition limit :: "number \<Rightarrow> builder \<Rightarrow> builder" where
  "limit n b = b\<lparr> b_limit := Some (Finite (of_int (max 0 (ToInt32 n)))) \<rparr>"

definition offset :: "number \<Rightarrow> builder \<Rightarrow> builder" where
  "offset n b = b\<lparr> b_offset := Some (Finite (of_int (max 0 (ToInt32 n)))) \<rparr>"

definition paginate :: "number \<Rightarrow> number \<Rightarrow> builder \<Rightarrow> builder" where
  "paginate page pageSize b =
     (let p = max 1 (ToInt32 page);
          size = max 1 (ToInt32 pageSize)
      in b\<lparr> b_limit := Some (Finite (of_int size)),
            b_offset := Some (Finite (of_int (round_double ((p - 1) * size)))) \<rparr>)"

definition debug :: "bool \<Rightarrow> builder \<Rightarrow> builder" where
  "debug enable b = b\<lparr> b_debug := enable \<rparr>"

definition allowUnsafe :: "builder \<Rightarrow> builder" where
  "allowUnsafe b = b\<lparr> b_allowUnsafe := True \<rparr>"

subsection \<open>The terminal method \<^verbatim>\<open>build\<close>\<close>

text \<open>
  The four \<^verbatim>\<open>throw new Error(...)\<close> of \<^verbatim>\<open>build\<close>, one constructor per message: insert
  without \<^verbatim>\<open>data()\<close>, update without \<^verbatim>\<open>data()\<close>, UPDATE without WHERE, DELETE without
  WHERE.
\<close>

datatype error =
    InsertNeedsData
  | UpdateNeedsData
  | UpdateWithoutWhere
  | DeleteWithoutWhere

text \<open>
  The statement head: the chain \<^verbatim>\<open>if (this.type === 'select') ... else if ...\<close>, which
  leaves the local variables \<^verbatim>\<open>sql\<close> and \<^verbatim>\<open>params\<close> set, or throws.
\<close>

definition build_head :: "builder \<Rightarrow> error + string \<times> primitive list" where
  "build_head b =
     (case b_type b of
        Select \<Rightarrow>
          let cols = (if length (b_columns b) \<noteq> 0 then join '', '' (b_columns b) else ''*'')
          in Inr (''SELECT '' @ cols @ '' FROM '' @ b_table b, [])
      | Count \<Rightarrow>
          Inr (''SELECT COUNT('' @ b_countColumn b @ '') AS '' @ b_countAlias b
                 @ '' FROM '' @ b_table b, [])
      | Insert \<Rightarrow>
          (case b_data b of
             None \<Rightarrow> Inl InsertNeedsData
           | Some d \<Rightarrow>
               let keys = Object_keys d;
                   placeholders = join '', '' (map (\<lambda>_. ''?'') keys)
               in Inr (''INSERT INTO '' @ b_table b @ '' ('' @ join '', '' keys
                         @ '') VALUES ('' @ placeholders @ '')'',
                       map (\<lambda>k. prop_get d k) keys))
      | Update \<Rightarrow>
          (case b_data b of
             None \<Rightarrow> Inl UpdateNeedsData
           | Some d \<Rightarrow>
               if length (b_wheres b) = 0 \<and> \<not> b_allowUnsafe b then Inl UpdateWithoutWhere
               else
                 let keys = Object_keys d;
                     sets = join '', '' (map (\<lambda>k. k @ '' = ?'') keys)
                 in Inr (''UPDATE '' @ b_table b @ '' SET '' @ sets,
                         map (\<lambda>k. prop_get d k) keys))
      | Delete \<Rightarrow>
          if length (b_wheres b) = 0 \<and> \<not> b_allowUnsafe b then Inl DeleteWithoutWhere
          else Inr (''DELETE FROM '' @ b_table b, []))"

text \<open>
  The loop \<^verbatim>\<open>for (let i = 0; i < this._wheres.length; i++)\<close>: the fragments still to
  visit, the index \<open>i\<close>, and the arrays \<^verbatim>\<open>parts\<close> and \<^verbatim>\<open>params\<close> that it pushes to.
\<close>

fun where_loop ::
  "where_fragment list \<Rightarrow> nat \<Rightarrow> string list \<Rightarrow> primitive list \<Rightarrow> string list \<times> primitive list"
where
  "where_loop [] i parts ps = (parts, ps)"
| "where_loop (w # ws) i parts ps =
     where_loop ws (i + 1)
       (parts @ [if i = 0 then w_sql w else connector_text (w_connector w) @ '' '' @ w_sql w])
       (ps @ w_params w)"

fun where_section :: "builder \<Rightarrow> string \<times> primitive list \<Rightarrow> string \<times> primitive list" where
  "where_section b (s, ps) =
     (if length (b_wheres b) > 0
      then (case where_loop (b_wheres b) 0 [] ps of
              (parts, ps') \<Rightarrow> (s @ '' WHERE '' @ join '' '' parts, ps'))
      else (s, ps))"

fun order_section :: "builder \<Rightarrow> string \<times> primitive list \<Rightarrow> string \<times> primitive list" where
  "order_section b (s, ps) =
     (if length (b_order b) \<noteq> 0 \<and> b_type b = Select
      then let orderSql = join '', '' (map (\<lambda>x. o_col x @ '' '' @ direction_text (o_dir x)) (b_order b))
           in (s @ '' ORDER BY '' @ orderSql, ps)
      else (s, ps))"

fun limit_section :: "builder \<Rightarrow> string \<times> primitive list \<Rightarrow> string \<times> primitive list" where
  "limit_section b (s, ps) =
     (if b_type b \<noteq> Count
      then (case b_limit b of
              Some l \<Rightarrow>
                (case b_offset b of
                   Some off \<Rightarrow> ((s @ '' LIMIT ?'') @ '' OFFSET ?'', (ps @ [PNumber l]) @ [PNumber off])
                 | None \<Rightarrow> (s @ '' LIMIT ?'', ps @ [PNumber l]))
            | None \<Rightarrow>
                (case b_offset b of
                   Some off \<Rightarrow> (s @ '' OFFSET ?'', ps @ [PNumber off])
                 | None \<Rightarrow> (s, ps)))
      else (s, ps))"

text \<open>
  Everything of \<^verbatim>\<open>build\<close> before the debug output: the head, then, unless the statement
  is an insert, the WHERE, ORDER BY and LIMIT/OFFSET sections in this order.
\<close>

definition assemble :: "builder \<Rightarrow> error + built_query" where
  "assemble b =
     (case build_head b of
        Inl e \<Rightarrow> Inl e
      | Inr st \<Rightarrow>
          (case (if b_type b \<noteq> Insert
                 then limit_section b (order_section b (where_section b st))
                 else st) of
             (s, ps) \<Rightarrow> Inr \<lparr> sql = s, params = ps \<rparr>))"

text \<open>
  The console is the list of what was logged. \<^verbatim>\<open>build\<close> takes the builder and the
  console, and returns its result (or the error thrown), the builder after the call and
  the console after the call. The body assigns no field of \<^verbatim>\<open>this\<close>, and it logs only
  when \<^verbatim>\<open>_debug\<close> is set and nothing was thrown.
\<close>

datatype log_entry = LogSql string | LogParams "primitive list"

definition build ::
  "builder \<Rightarrow> log_entry list \<Rightarrow> (error + built_query) \<times> builder \<times> log_entry list"
where
  "build b console =
     (case assemble b of
        Inl e \<Rightarrow> (Inl e, b, console)
      | Inr q \<Rightarrow>
          (Inr q, b,
           if b_debug b then console @ [LogSql (sql q), LogParams (params q)] else console))"

subsection \<open>The factory and chains of calls\<close>

definition BabySQL_select :: "string \<Rightarrow> builder" where
  "BabySQL_select tbl = new_builder Select tbl"

definition BabySQL_count :: "string \<Rightarrow> builder" where
  "BabySQL_count tbl = new_builder Count tbl"

definition BabySQL_insert :: "string \<Rightarrow> builder" where
  "BabySQL_insert tbl = new_builder Insert tbl"

definition BabySQL_update :: "string \<Rightarrow> builder" where
  "BabySQL_update tbl = new_builder Update tbl"

definition BabySQL_delete :: "string \<Rightarrow> builder" where
  "BabySQL_delete tbl = new_builder Delete tbl"

text \<open>
  A configuration is what a chain of configuration calls leaves in a fresh builder. A
  call is the method with its arguments.
\<close>

datatype call =
    CountColumn string string
  | Data jsobject
  | Columns columns_arg
  | Where string where_operator primitive connector
  | WhereLike string string like_mode connector
  | WhereIn string "primitive list" connector
  | WhereRaw string "primitive list" connector
  | OrderBy string order_direction
  | Limit number
  | Offset number
  | Paginate number number
  | Debug bool
  | AllowUnsafe

fun apply_call :: "builder \<Rightarrow> call \<Rightarrow> builder" where
  "apply_call b (CountColumn col alias) = countColumn col alias b"
| "apply_call b (Data obj) = data obj b"
| "apply_call b (Columns cols) = columns cols b"
| "apply_call b (Where column op v c) = where' column op v c b"
| "apply_call b (WhereLike column v mode c) = whereLike column v mode c b"
| "apply_call b (WhereIn column vs c) = whereIn column vs c b"
| "apply_call b (WhereRaw s ps c) = whereRaw s ps c b"
| "apply_call b (OrderBy column dir) = orderBy column dir b"
| "apply_call b (Limit n) = limit n b"
| "apply_call b (Offset n) = offset n b"
| "apply_call b (Paginate page pageSize) = paginate page pageSize b"
| "apply_call b (Debug enable) = debug enable b"
| "apply_call b AllowUnsafe = allowUnsafe b"

definition configure :: "builder \<Rightarrow> call list \<Rightarrow> builder" where
  "configure b cs = foldl apply_call b cs"

subsection \<open>Placeholders\<close>

text \<open>The number of \<^verbatim>\<open>?\<close> characters of a text.\<close>

definition placeholder_count :: "string \<Rightarrow> nat" where
  "placeholder_count s = length (filter (\<lambda>c. c = CHR ''?'') s)"

subsection \<open>Vocabulary of the specification\<close>

text \<open>
  The specification names two kinds of error: MissingPayload, for the two messages about
  a missing call of \<^verbatim>\<open>data()\<close>, and UnsafeStatement, for the two about a missing WHERE.
\<close>

datatype error_kind = MissingPayload | UnsafeStatement

fun kind_of :: "error \<Rightarrow> error_kind" where
  "kind_of InsertNeedsData = MissingPayload"
| "kind_of UpdateNeedsData = MissingPayload"
| "kind_of UpdateWithoutWhere = UnsafeStatement"
| "kind_of DeleteWithoutWhere = UnsafeStatement"

text \<open>
  The two conditions of the specification, on a builder: the kind is insert or update and
  no payload was set; the kind is update or delete, the list of predicates is empty and
  the unsafe flag is not set.
\<close>

definition missing_payload :: "builder \<Rightarrow> bool" where
  "missing_payload b \<longleftrightarrow> (b_type b = Insert \<or> b_type b = Update) \<and> b_data b = None"

definition unsafe_statement :: "builder \<Rightarrow> bool" where
  "unsafe_statement b \<longleftrightarrow>
     (b_type b = Update \<or> b_type b = Delete) \<and> b_wheres b = [] \<and> \<not> b_allowUnsafe b"

fun is_data_call :: "call \<Rightarrow> bool" where
  "is_data_call (Data obj) = True"
| "is_data_call _ = False"

fun is_where_call :: "call \<Rightarrow> bool" where
  "is_where_call (Where column op v c) = True"
| "is_where_call (WhereLike column v mode c) = True"
| "is_where_call (WhereIn column vs c) = True"
| "is_where_call (WhereRaw s ps c) = True"
| "is_where_call _ = False"

text \<open>
  The WHERE clause as the specification words it: nothing for an empty list; otherwise
  \<^verbatim>\<open> WHERE \<close>, the SQL of the first fragment, and for each later fragment a space, its
  connector, a space and its SQL.
\<close>

fun where_clause :: "where_fragment list \<Rightarrow> string" where
  "where_clause [] = []"
| "where_clause (w # ws) =
     '' WHERE '' @ w_sql w
       @ concat (map (\<lambda>x. '' '' @ connector_text (w_connector x) @ '' '' @ w_sql x) ws)"

text \<open>
  What \<^verbatim>\<open>build\<close> appends after the WHERE clause: the ORDER BY and LIMIT/OFFSET sections
  of the source, run on an empty text and an empty parameter list.
\<close>

definition after_where :: "builder \<Rightarrow> string \<times> primitive list" where
  "after_where b = limit_section b (order_section b ([], []))"










section \<open>Properties\<close>

subsection \<open>What \<^verbatim>\<open>build\<close> returns and leaves behind\<close>

lemma fst_build: "fst (build b console) = assemble b"
  by (simp add: build_def split: sum.splits)

lemma build_head_debug: "build_head (b\<lparr> b_debug := d \<rparr>) = build_head b"
  by (cases "b_type b"; cases "b_data b"; simp add: build_head_def)

lemma sections_debug:
  "where_section (b\<lparr> b_debug := d \<rparr>) st = where_section b st"
  "order_section (b\<lparr> b_debug := d \<rparr>) st = order_section b st"
  "limit_section (b\<lparr> b_debug := d \<rparr>) st = limit_section b st"
  by (cases st; simp cong: option.case_cong)+

lemma assemble_debug: "assemble (b\<lparr> b_debug := d \<rparr>) = assemble b"
  by (simp add: assemble_def build_head_debug sections_debug split: sum.splits)

lemma join_marks_nonempty: "vs \<noteq> [] \<Longrightarrow> join sep (map (\<lambda>_. ''?'') vs) \<noteq> []"
proof (cases vs)
  case Nil
  then show "vs \<noteq> [] \<Longrightarrow> ?thesis" by simp
next
  case (Cons v vs')
  then show ?thesis by (cases vs') simp_all
qed

text \<open>
  Claim C7. \<^verbatim>\<open>whereIn\<close> called with an empty array of values appends the fragment
  whose SQL is the literal \<^verbatim>\<open>1=0\<close>, with no parameters and with the connector given, for
  every column name and every connector. Whatever the values, the fragment that
  \<^verbatim>\<open>whereIn\<close> appends is never the empty list \<^verbatim>\<open><column> IN ()\<close>.
\<close>

theorem whereIn_empty_values:
  "whereIn column [] c b =
     b\<lparr> b_wheres := b_wheres b @ [\<lparr> w_sql = ''1=0'', w_params = [], w_connector = c \<rparr>] \<rparr>
   \<and> w_sql (last (b_wheres (whereIn column vs c b))) \<noteq> column @ '' IN ()''"
proof
  show "whereIn column [] c b =
     b\<lparr> b_wheres := b_wheres b @ [\<lparr> w_sql = ''1=0'', w_params = [], w_connector = c \<rparr>] \<rparr>"
    by (simp add: whereIn_def)
next
  show "w_sql (last (b_wheres (whereIn column vs c b))) \<noteq> column @ '' IN ()''"
  proof (cases "vs = []")
    case True
    have "length ''1=0'' \<noteq> length (column @ '' IN ()'')" by simp
    then have "''1=0'' \<noteq> column @ '' IN ()''" by metis
    with True show ?thesis by (simp add: whereIn_def)
  next
    case False
    then show ?thesis
      using join_marks_nonempty [OF False, of "'', ''"] by (simp add: whereIn_def Let_def)
  qed
qed

theorem whereIn_empty_values_witness:
  "b_wheres (whereIn ''id'' [] OR (BabySQL_select ''products'')) =
     [\<lparr> w_sql = ''1=0'', w_params = [], w_connector = OR \<rparr>]
   \<and> w_sql (last (b_wheres (whereIn ''id'' [PNull] OR (BabySQL_select ''products''))))
       \<noteq> ''id IN ()''"
  using whereIn_empty_values [of "''id''" OR "BabySQL_select ''products''" "[PNull]"]
  by (simp add: BabySQL_select_def new_builder_def)

text \<open>
  Claim C8. \<^verbatim>\<open>build\<close> leaves the builder as it found it, and a second call, made on the
  builder and the console that the first call left, returns the same result: the same
  \<^verbatim>\<open>sql\<close> and the same \<^verbatim>\<open>params\<close>, or the same error.
\<close>

theorem build_idempotent:
  "(case build b console of
      (r, b', console') \<Rightarrow>
        b' = b \<and> (case build b' console' of (r', b'', console'') \<Rightarrow> r' = r \<and> b'' = b))"
  by (simp add: build_def split: sum.splits)

theorem build_idempotent_witness:
  "(case build (debug True (BabySQL_count ''users'')) [] of
      (r, b', console') \<Rightarrow>
        r = Inr \<lparr> sql = ''SELECT COUNT(*) AS total FROM users'', params = [] \<rparr>
        \<and> b' = debug True (BabySQL_count ''users'')
        \<and> fst (build b' console') = r)"
  using build_idempotent [of "debug True (BabySQL_count ''users'')" "[]"]
  by (simp add: build_def assemble_def build_head_def debug_def BabySQL_count_def new_builder_def)

text \<open>
  Claim C9. The debug flag never affects the value returned: from the same configuration,
  \<^verbatim>\<open>build\<close> returns the same result whether \<^verbatim>\<open>debug\<close> was switched on or off, and whatever
  the console held. Only the console differs.
\<close>

theorem debug_noninterference:
  "fst (build (debug d1 b) console1) = fst (build (debug d2 b) console2)"
  by (simp add: fst_build debug_def assemble_debug)

theorem debug_noninterference_witness:
  "fst (build (debug True (BabySQL_count ''users'')) [])
     = fst (build (debug False (BabySQL_count ''users'')) [])
   \<and> snd (snd (build (debug True (BabySQL_count ''users'')) []))
     \<noteq> snd (snd (build (debug False (BabySQL_count ''users'')) []))"
  using debug_noninterference [of True "BabySQL_count ''users''" "[]" False "[]"]
  by (simp add: build_def assemble_def build_head_def debug_def BabySQL_count_def new_builder_def)

subsection \<open>Chains of configuration calls\<close>

lemma columns_eq:
  "columns cols b =
     b\<lparr> b_columns := (case cols of ColumnArray cs \<Rightarrow> cs | ColumnName col \<Rightarrow> [col]) \<rparr>"
  by (cases cols) simp_all

lemmas method_defs =
  columns_eq countColumn_def data_def where'_def whereLike_def whereIn_def whereRaw_def
  orderBy_def limit_def offset_def paginate_def debug_def allowUnsafe_def

lemma apply_call_type: "b_type (apply_call b c) = b_type b"
  by (cases "(b, c)" rule: apply_call.cases) (simp_all add: method_defs Let_def)

lemma apply_call_table: "b_table (apply_call b c) = b_table b"
  by (cases "(b, c)" rule: apply_call.cases) (simp_all add: method_defs Let_def)

lemma apply_call_data_None:
  "b_data (apply_call b c) = None \<longleftrightarrow> b_data b = None \<and> \<not> is_data_call c"
  by (cases "(b, c)" rule: apply_call.cases) (simp_all add: method_defs Let_def)

lemma apply_call_wheres_Nil:
  "b_wheres (apply_call b c) = [] \<longleftrightarrow> b_wheres b = [] \<and> \<not> is_where_call c"
  by (cases "(b, c)" rule: apply_call.cases) (simp_all add: method_defs Let_def)

lemma apply_call_allowUnsafe:
  "b_allowUnsafe (apply_call b c) \<longleftrightarrow> b_allowUnsafe b \<or> c = AllowUnsafe"
  by (cases "(b, c)" rule: apply_call.cases) (simp_all add: method_defs Let_def)

lemma configure_type: "b_type (configure b cs) = b_type b"
  unfolding configure_def by (induction cs arbitrary: b) (simp_all add: apply_call_type)

lemma configure_table: "b_table (configure b cs) = b_table b"
  unfolding configure_def by (induction cs arbitrary: b) (simp_all add: apply_call_table)

lemma configure_data_None:
  "b_data (configure b cs) = None \<longleftrightarrow> b_data b = None \<and> \<not> list_ex is_data_call cs"
  unfolding configure_def by (induction cs arbitrary: b) (auto simp: apply_call_data_None)

lemma configure_wheres_Nil:
  "b_wheres (configure b cs) = [] \<longleftrightarrow> b_wheres b = [] \<and> \<not> list_ex is_where_call cs"
  unfolding configure_def by (induction cs arbitrary: b) (auto simp: apply_call_wheres_Nil)

lemma configure_allowUnsafe:
  "b_allowUnsafe (configure b cs) \<longleftrightarrow> b_allowUnsafe b \<or> AllowUnsafe \<in> set cs"
  unfolding configure_def by (induction cs arbitrary: b) (auto simp: apply_call_allowUnsafe)

subsection \<open>Errors\<close>

lemma assemble_Inl: "assemble b = Inl e \<longleftrightarrow> build_head b = Inl e"
  by (auto simp: assemble_def split: sum.splits prod.splits)

lemma assemble_Inr_ex: "build_head b = Inr st \<Longrightarrow> \<exists>q. assemble b = Inr q"
  by (auto simp: assemble_def split: sum.splits prod.splits)

lemma build_head_missing:
  "missing_payload b \<Longrightarrow> \<exists>e. build_head b = Inl e \<and> kind_of e = MissingPayload"
  by (auto simp: missing_payload_def build_head_def)

lemma build_head_unsafe:
  "unsafe_statement b \<Longrightarrow> \<not> missing_payload b \<Longrightarrow>
     \<exists>e. build_head b = Inl e \<and> kind_of e = UnsafeStatement"
  by (cases "b_data b") (auto simp: missing_payload_def unsafe_statement_def build_head_def)

lemma build_head_ok:
  "\<not> unsafe_statement b \<Longrightarrow> \<not> missing_payload b \<Longrightarrow> \<exists>st. build_head b = Inr st"
  by (cases "b_type b"; cases "b_data b")
     (auto simp: missing_payload_def unsafe_statement_def build_head_def Let_def)

text \<open>
  Claim C2. \<^verbatim>\<open>build\<close> throws if and only if the payload is missing (insert or update
  without \<^verbatim>\<open>_data\<close>) or the statement is unsafe (update or delete, no predicate, unsafe
  flag not set). A missing payload gives an error of kind MissingPayload; an unsafe
  statement whose payload is not missing gives one of kind UnsafeStatement; every other
  builder gives a result. The configuration methods are total functions on builders, no
  body throws: after any chain of calls on a fresh builder, the payload is missing exactly
  when the kind is insert or update and the chain has no call of \<^verbatim>\<open>data\<close>, and the
  statement is unsafe exactly when the kind is update or delete and the chain has no call
  of a \<^verbatim>\<open>where\<close> method and none of \<^verbatim>\<open>allowUnsafe\<close>.
\<close>

theorem build_raises_iff:
  "((\<exists>e. fst (build b console) = Inl e) \<longleftrightarrow> missing_payload b \<or> unsafe_statement b)
   \<and> (missing_payload b \<longrightarrow>
        (\<exists>e. fst (build b console) = Inl e \<and> kind_of e = MissingPayload))
   \<and> (unsafe_statement b \<and> \<not> missing_payload b \<longrightarrow>
        (\<exists>e. fst (build b console) = Inl e \<and> kind_of e = UnsafeStatement))
   \<and> (\<not> missing_payload b \<and> \<not> unsafe_statement b \<longrightarrow>
        (\<exists>q. fst (build b console) = Inr q))
   \<and> (missing_payload (configure (new_builder ty tbl) cs) \<longleftrightarrow>
        (ty = Insert \<or> ty = Update) \<and> \<not> list_ex is_data_call cs)
   \<and> (unsafe_statement (configure (new_builder ty tbl) cs) \<longleftrightarrow>
        (ty = Update \<or> ty = Delete) \<and> \<not> list_ex is_where_call cs \<and> AllowUnsafe \<notin> set cs)"
proof -
  have a: "missing_payload b \<Longrightarrow> \<exists>e. assemble b = Inl e \<and> kind_of e = MissingPayload"
    using build_head_missing [of b] by (auto simp: assemble_Inl)
  have u: "unsafe_statement b \<Longrightarrow> \<not> missing_payload b \<Longrightarrow>
      \<exists>e. assemble b = Inl e \<and> kind_of e = UnsafeStatement"
    using build_head_unsafe [of b] by (auto simp: assemble_Inl)
  have k: "\<not> missing_payload b \<Longrightarrow> \<not> unsafe_statement b \<Longrightarrow> \<exists>q. assemble b = Inr q"
    using build_head_ok [of b] assemble_Inr_ex [of b] by blast
  have first: "((\<exists>e. fst (build b console) = Inl e) \<longleftrightarrow> missing_payload b \<or> unsafe_statement b)
   \<and> (missing_payload b \<longrightarrow>
        (\<exists>e. fst (build b console) = Inl e \<and> kind_of e = MissingPayload))
   \<and> (unsafe_statement b \<and> \<not> missing_payload b \<longrightarrow>
        (\<exists>e. fst (build b console) = Inl e \<and> kind_of e = UnsafeStatement))
   \<and> (\<not> missing_payload b \<and> \<not> unsafe_statement b \<longrightarrow>
        (\<exists>q. fst (build b console) = Inr q))"
    unfolding fst_build using a u k by (metis sum.distinct(1))
  have m: "missing_payload (configure (new_builder ty tbl) cs) \<longleftrightarrow>
        (ty = Insert \<or> ty = Update) \<and> \<not> list_ex is_data_call cs"
    by (simp add: missing_payload_def configure_type configure_data_None new_builder_def)
  have s: "unsafe_statement (configure (new_builder ty tbl) cs) \<longleftrightarrow>
        (ty = Update \<or> ty = Delete) \<and> \<not> list_ex is_where_call cs \<and> AllowUnsafe \<notin> set cs"
    by (simp add: unsafe_statement_def configure_type configure_wheres_Nil
        configure_allowUnsafe new_builder_def)
  from first m s show ?thesis by blast
qed

theorem build_raises_iff_witness:
  "(\<exists>e. fst (build (BabySQL_delete ''users'') []) = Inl e \<and> kind_of e = UnsafeStatement)
   \<and> (\<exists>e. fst (build (where' ''id'' OpEq PNull AND (BabySQL_update ''users'')) []) = Inl e
          \<and> kind_of e = MissingPayload)
   \<and> (\<exists>q. fst (build (allowUnsafe (BabySQL_delete ''users'')) []) = Inr q)"
proof -
  have "\<exists>e. fst (build (BabySQL_delete ''users'') []) = Inl e \<and> kind_of e = UnsafeStatement"
    using build_raises_iff [of "BabySQL_delete ''users''" "[]"]
    by (simp add: missing_payload_def unsafe_statement_def BabySQL_delete_def new_builder_def)
  moreover
  have "\<exists>e. fst (build (where' ''id'' OpEq PNull AND (BabySQL_update ''users'')) []) = Inl e
          \<and> kind_of e = MissingPayload"
    using build_raises_iff [of "where' ''id'' OpEq PNull AND (BabySQL_update ''users'')" "[]"]
    by (simp add: missing_payload_def where'_def BabySQL_update_def new_builder_def)
  moreover
  have "\<exists>q. fst (build (allowUnsafe (BabySQL_delete ''users'')) []) = Inr q"
    using build_raises_iff [of "allowUnsafe (BabySQL_delete ''users'')" "[]"]
    by (simp add: missing_payload_def unsafe_statement_def allowUnsafe_def BabySQL_delete_def
        new_builder_def)
  ultimately show ?thesis by blast
qed

subsection \<open>Limit and offset\<close>

lemma trunc_range:
  assumes "- (2 ^ 31) - 1 < x" and "x < 2 ^ 31"
  shows "- (2 ^ 31) \<le> trunc x \<and> trunc x < 2 ^ 31"
proof (cases "x < 0")
  case True
  have "- (2 ^ 31) - 1 < \<lceil>x\<rceil>"
    using assms(1) by (simp add: less_ceiling_iff)
  moreover have "\<lceil>x\<rceil> \<le> 0" using True by (simp add: ceiling_le_iff)
  ultimately show ?thesis using True by (simp add: trunc_def)
next
  case False
  then have "0 \<le> \<lfloor>x\<rfloor>" by simp
  moreover have "\<lfloor>x\<rfloor> < 2 ^ 31" using assms(2) by (simp add: floor_less_iff)
  ultimately show ?thesis using False by (simp add: trunc_def)
qed

lemma signed_32_small:
  assumes "- (2 ^ 31) \<le> t" and "t < 2 ^ 31"
  shows "(let m = t mod 2 ^ 32 in if m \<ge> 2 ^ 31 then m - 2 ^ 32 else m) = (t::int)"
proof (cases "0 \<le> t")
  case True
  then have "t mod 2 ^ 32 = t" using assms by simp
  then show ?thesis using assms by (simp add: Let_def)
next
  case False
  then have "0 \<le> t + 2 ^ 32" "t + 2 ^ 32 < 2 ^ 32" using assms by simp_all
  then have "(t + 2 ^ 32) mod 2 ^ 32 = t + 2 ^ 32" by (rule mod_pos_pos_trivial)
  moreover have "(t + 2 ^ 32) mod 2 ^ 32 = t mod 2 ^ 32" by (rule mod_add_self2)
  ultimately have "t mod 2 ^ 32 = t + 2 ^ 32" by metis
  then show ?thesis using assms by (simp add: Let_def)
qed

lemma ToInt32_in_range:
  "- (2 ^ 31) - 1 < x \<Longrightarrow> x < 2 ^ 31 \<Longrightarrow> ToInt32 (Finite x) = trunc x"
  using trunc_range [of x] signed_32_small [of "trunc x"] by simp

lemma ToInt32_bounds: "- (2 ^ 31) \<le> ToInt32 n \<and> ToInt32 n < 2 ^ 31"
proof (cases n)
  case (Finite x)
  have "0 \<le> trunc x mod 2 ^ 32" "trunc x mod 2 ^ 32 < 2 ^ 32" by simp_all
  then show ?thesis using Finite by (auto simp: Let_def)
qed simp_all

text \<open>
  Claim C5, amended. \<^verbatim>\<open>limit(n)\<close> and \<^verbatim>\<open>offset(n)\<close> store \<open>max 0 (n | 0)\<close>. For a finite
  \<open>n\<close> with \<open>- 2^31 - 1 < n < 2^31\<close> this is the clamp the specification describes,
  \<open>max 0 (trunc n)\<close>: negative values give 0 and fractional values are truncated toward
  zero. For every \<open>n\<close> the value stored is an integer from 0 to \<open>2^31 - 1\<close>, and each
  call overwrites the value of the call before.
\<close>

theorem limit_offset_clamp:
  assumes "- (2 ^ 31) - 1 < x" and "x < 2 ^ 31"
  shows "limit (Finite x) b = b\<lparr> b_limit := Some (Finite (of_int (max 0 (trunc x)))) \<rparr>
       \<and> offset (Finite x) b = b\<lparr> b_offset := Some (Finite (of_int (max 0 (trunc x)))) \<rparr>
       \<and> limit n (limit m b) = limit n b
       \<and> offset n (offset m b) = offset n b
       \<and> (\<exists>k. 0 \<le> k \<and> k < 2 ^ 31 \<and> b_limit (limit n b) = Some (Finite (of_int k)))
       \<and> (\<exists>k. 0 \<le> k \<and> k < 2 ^ 31 \<and> b_offset (offset n b) = Some (Finite (of_int k)))"
proof -
  have "0 \<le> max 0 (ToInt32 n) \<and> max 0 (ToInt32 n) < 2 ^ 31"
    using ToInt32_bounds [of n] by simp
  then show ?thesis
    using ToInt32_in_range [OF assms] by (simp add: limit_def offset_def del: ToInt32.simps)
qed

theorem limit_offset_clamp_witness:
  "- (2 ^ 31) - 1 < (- (7 / 2) :: rat) \<and> (- (7 / 2) :: rat) < 2 ^ 31
   \<and> b_limit (limit (Finite (- (7 / 2))) (BabySQL_select ''posts'')) = Some (Finite 0)
   \<and> b_offset (offset (Finite (- (7 / 2))) (BabySQL_select ''posts'')) = Some (Finite 0)
   \<and> limit (Finite 9) (limit (Finite 4) (BabySQL_select ''posts''))
       = limit (Finite 9) (BabySQL_select ''posts'')"
proof -
  have lo: "- (2 ^ 31) - 1 < (- (7 / 2) :: rat)" and hi: "(- (7 / 2) :: rat) < 2 ^ 31"
    by simp_all
  have t: "trunc (- (7 / 2)) = - 3"
    by code_simp
  from limit_offset_clamp [OF lo hi, of "BabySQL_select ''posts''" "Finite 9" "Finite 4"]
  have "limit (Finite (- (7 / 2))) (BabySQL_select ''posts'')
          = (BabySQL_select ''posts'')\<lparr> b_limit := Some (Finite (of_int (max 0 (trunc (- (7 / 2)))))) \<rparr>"
    and "offset (Finite (- (7 / 2))) (BabySQL_select ''posts'')
          = (BabySQL_select ''posts'')\<lparr> b_offset := Some (Finite (of_int (max 0 (trunc (- (7 / 2)))))) \<rparr>"
    and "limit (Finite 9) (limit (Finite 4) (BabySQL_select ''posts''))
          = limit (Finite 9) (BabySQL_select ''posts'')"
    by blast+
  then show ?thesis
    using lo hi by (simp add: t)
qed

text \<open>
  The claim as stated fails at \<open>n = 2^31\<close>, a value that a double holds exactly:
  \<^verbatim>\<open>limit(2147483648)\<close> stores 0, and \<open>max 0 (trunc n)\<close> is 2147483648.
\<close>

theorem limit_clamp_counterexample:
  "b_limit (limit (Finite 2147483648) (BabySQL_select ''posts'')) = Some (Finite 0)
   \<and> max 0 (trunc 2147483648) = 2147483648"
  by (simp add: limit_def trunc_def)

subsection \<open>The WHERE clause\<close>

lemma where_loop_later:
  "where_loop ws (Suc i) parts ps =
     (parts @ map (\<lambda>x. connector_text (w_connector x) @ '' '' @ w_sql x) ws,
      ps @ concat (map w_params ws))"
  by (induction ws arbitrary: i parts ps) simp_all

lemma where_loop_first:
  "where_loop (w # ws) 0 [] ps =
     (w_sql w # map (\<lambda>x. connector_text (w_connector x) @ '' '' @ w_sql x) ws,
      ps @ concat (map w_params (w # ws)))"
  by (simp add: where_loop_later [of ws 0, simplified])

lemma join_Cons_map: "join sep (x # map f ys) = x @ concat (map (\<lambda>y. sep @ f y) ys)"
  by (induction ys arbitrary: x) simp_all

lemma where_section_eq:
  "where_section b (s, ps) =
     (s @ where_clause (b_wheres b), ps @ concat (map w_params (b_wheres b)))"
proof (cases "b_wheres b")
  case Nil
  then show ?thesis by simp
next
  case (Cons w ws)
  then show ?thesis by (simp add: where_loop_first join_Cons_map del: where_loop.simps)
qed

subsection \<open>Count statements\<close>

lemma build_head_Count:
  "b_type b = Count \<Longrightarrow>
     build_head b = Inr (''SELECT COUNT('' @ b_countColumn b @ '') AS '' @ b_countAlias b
                          @ '' FROM '' @ b_table b, [])"
  by (simp add: build_head_def)

text \<open>
  Claim C6, amended. For a count statement the predicates still apply, and nothing else
  does: \<^verbatim>\<open>build\<close> returns the head followed by the WHERE clause, and the parameters of
  the fragments. The ORDER BY clause is appended for select only, so the order list of a
  count statement is ignored, and so are limit and offset.
\<close>

theorem count_clauses:
  "b_type b = Count \<Longrightarrow>
     fst (build b console) =
       Inr \<lparr> sql = ''SELECT COUNT('' @ b_countColumn b @ '') AS '' @ b_countAlias b
                     @ '' FROM '' @ b_table b @ where_clause (b_wheres b),
             params = concat (map w_params (b_wheres b)) \<rparr>"
  by (simp add: fst_build assemble_def build_head_Count where_section_eq del: where_section.simps)

theorem count_clauses_witness:
  "fst (build (limit (Finite 5) (orderBy ''id'' ASC
          (where' ''age'' OpGt (PNumber (Finite 18)) AND (BabySQL_count ''users'')))) [])
     = Inr \<lparr> sql = ''SELECT COUNT(*) AS total FROM users WHERE age > ?'',
             params = [PNumber (Finite 18)] \<rparr>"
  using count_clauses [of "limit (Finite 5) (orderBy ''id'' ASC
          (where' ''age'' OpGt (PNumber (Finite 18)) AND (BabySQL_count ''users'')))" "[]"]
  by (simp add: limit_def orderBy_def where'_def BabySQL_count_def new_builder_def)

text \<open>
  The claim as stated fails: a count statement with an order list renders no ORDER BY
  clause.
\<close>

theorem count_order_counterexample:
  "fst (build (orderBy ''id'' ASC (BabySQL_count ''users'')) [])
     = Inr \<lparr> sql = ''SELECT COUNT(*) AS total FROM users'', params = [] \<rparr>"
  by (simp add: fst_build assemble_def build_head_def orderBy_def BabySQL_count_def
      new_builder_def)

subsection \<open>Objects and their key order\<close>

lemma set_Object_keys: "set (Object_keys obj) = fst ` set obj"
  by (auto simp: Object_keys_def)

lemma Object_keys_plain:
  "\<forall>k \<in> fst ` set obj. \<not> is_array_index k \<Longrightarrow> Object_keys obj = map fst obj"
  by (simp add: Object_keys_def filter_empty_conv)

lemma map_fst_spread: "map fst (spread obj) = Object_keys obj"
  by (simp add: spread_def comp_def)

lemma Object_keys_idem:
  "Object_keys (spread obj) = Object_keys obj"
proof -
  let ?ks = "map fst obj"
  let ?S = "sort_key index_value (filter is_array_index ?ks)"
  let ?N = "filter (\<lambda>k. \<not> is_array_index k) ?ks"
  have S: "filter is_array_index ?S = ?S" "filter (\<lambda>k. \<not> is_array_index k) ?S = []"
    by (simp_all add: filter_empty_conv)
  have N: "filter is_array_index ?N = []" "filter (\<lambda>k. \<not> is_array_index k) ?N = ?N"
    by (simp_all add: filter_empty_conv)
  have "sort_key index_value ?S = ?S"
    by (rule sort_key_id_if_sorted) (rule sorted_sort_key)
  then have "Object_keys (spread obj) = ?S @ ?N"
    unfolding Object_keys_def [of "spread obj"] map_fst_spread
    unfolding Object_keys_def [of obj]
    by (simp only: filter_append S N append_Nil2 append_Nil)
  then show ?thesis by (simp add: Object_keys_def)
qed

lemma prop_get_own: "k \<in> set (Object_keys obj) \<Longrightarrow> map_of obj k \<noteq> None"
  by (simp add: set_Object_keys map_of_eq_None_iff)

lemma prop_get_spread:
  assumes "k \<in> set (Object_keys obj)"
  shows "prop_get (spread obj) k = prop_get obj k"
proof -
  have m: "map_of (spread obj) k = Some (prop_get obj k)"
    unfolding spread_def using assms by (simp add: map_of_map_restrict)
  have "prop_get (spread obj) k = (case map_of (spread obj) k of Some v \<Rightarrow> v | None \<Rightarrow> PNull)"
    by (rule prop_get_def)
  also have "\<dots> = prop_get obj k"
    by (simp add: m)
  finally show ?thesis .
qed

lemma map_prop_get_spread:
  "map (prop_get (spread obj)) (Object_keys obj) = map (prop_get obj) (Object_keys obj)"
  by (simp add: prop_get_spread)

lemma map_prop_get_distinct:
  "distinct (map fst obj) \<Longrightarrow> map (prop_get obj) (map fst obj) = map snd obj"
  by (auto simp: prop_get_def)


subsection \<open>The sections of \<^verbatim>\<open>build\<close> put together\<close>

lemma order_section_append:
  "order_section b (s, ps) = (s @ fst (order_section b ([], [])), ps @ snd (order_section b ([], [])))"
  by (simp add: Let_def)

lemma limit_section_append:
  "limit_section b (s, ps) = (s @ fst (limit_section b ([], [])), ps @ snd (limit_section b ([], [])))"
  by (simp split: option.splits)

lemma sections_eq:
  "limit_section b (order_section b (where_section b (s, ps))) =
     (s @ where_clause (b_wheres b) @ fst (after_where b),
      ps @ concat (map w_params (b_wheres b)) @ snd (after_where b))"
proof -
  obtain s1 p1 where o: "order_section b ([], []) = (s1, p1)" by (cases "order_section b ([], [])")
  obtain s2 p2 where l: "limit_section b ([], []) = (s2, p2)" by (cases "limit_section b ([], [])")
  have "after_where b = (s1 @ s2, p1 @ p2)"
    unfolding after_where_def o
    by (subst limit_section_append) (simp add: l del: limit_section.simps)
  moreover have "limit_section b (order_section b (where_section b (s, ps))) =
      ((s @ where_clause (b_wheres b)) @ s1 @ s2, (ps @ concat (map w_params (b_wheres b))) @ p1 @ p2)"
    unfolding where_section_eq
    by (subst order_section_append, subst limit_section_append)
       (simp add: o l del: limit_section.simps order_section.simps)
  ultimately show ?thesis by simp
qed

lemma assemble_eq:
  assumes "build_head b = Inr (hs, hp)" and "b_type b \<noteq> Insert"
  shows "assemble b =
     Inr \<lparr> sql = hs @ where_clause (b_wheres b) @ fst (after_where b),
           params = hp @ concat (map w_params (b_wheres b)) @ snd (after_where b) \<rparr>"
  using assms by (simp add: assemble_def sections_eq del: where_section.simps order_section.simps limit_section.simps)

lemma assemble_Insert:
  assumes "build_head b = Inr (hs, hp)" and "b_type b = Insert"
  shows "assemble b = Inr \<lparr> sql = hs, params = hp \<rparr>"
  using assms by (simp add: assemble_def)

lemma after_where_data: "after_where (b\<lparr> b_data := d \<rparr>) = after_where b"
  by (simp add: after_where_def Let_def cong: option.case_cong)

lemma build_head_Insert_data:
  "b_type b = Insert \<Longrightarrow>
   build_head (data obj b) =
     Inr (''INSERT INTO '' @ b_table b @ '' ('' @ join '', '' (Object_keys obj)
            @ '') VALUES ('' @ join '', '' (map (\<lambda>_. ''?'') (Object_keys obj)) @ '')'',
          map (prop_get obj) (Object_keys obj))"
  by (simp add: build_head_def data_def Object_keys_idem map_prop_get_spread Let_def)

lemma build_head_Update_data:
  "b_type b = Update \<Longrightarrow> b_wheres b \<noteq> [] \<or> b_allowUnsafe b \<Longrightarrow>
   build_head (data obj b) =
     Inr (''UPDATE '' @ b_table b @ '' SET ''
            @ join '', '' (map (\<lambda>k. k @ '' = ?'') (Object_keys obj)),
          map (prop_get obj) (Object_keys obj))"
  by (auto simp add: build_head_def data_def Object_keys_idem map_prop_get_spread Let_def)

text \<open>
  Claim C4, amended. For insert and update, the columns in the SQL (the key list of
  INSERT, the assignment list of SET) and the leading parameters follow one and the same
  order, the order of \<^verbatim>\<open>Object.keys\<close> on the payload: first the keys that are array
  indices, in ascending numeric order, then the other keys in insertion order. For a
  payload none of whose keys is an array index this is the insertion order, and the
  parameters are the values in insertion order. For update, what follows the assignment
  list and the payload's parameters does not depend on the payload.
\<close>

theorem payload_key_order:
  "(b_type b = Insert \<longrightarrow>
      fst (build (data obj b) console) =
        Inr \<lparr> sql = ''INSERT INTO '' @ b_table b @ '' ('' @ join '', '' (Object_keys obj)
                      @ '') VALUES ('' @ join '', '' (map (\<lambda>_. ''?'') (Object_keys obj)) @ '')'',
              params = map (prop_get obj) (Object_keys obj) \<rparr>)
   \<and> (b_type b = Update \<and> (b_wheres b \<noteq> [] \<or> b_allowUnsafe b) \<longrightarrow>
        (\<exists>s ps. \<forall>obj'.
           fst (build (data obj' b) console) =
             Inr \<lparr> sql = ''UPDATE '' @ b_table b @ '' SET ''
                           @ join '', '' (map (\<lambda>k. k @ '' = ?'') (Object_keys obj')) @ s,
                   params = map (prop_get obj') (Object_keys obj') @ ps \<rparr>))
   \<and> Object_keys obj =
        sort_key index_value (filter is_array_index (map fst obj))
          @ filter (\<lambda>k. \<not> is_array_index k) (map fst obj)
   \<and> (distinct (map fst obj) \<and> (\<forall>k \<in> set (map fst obj). \<not> is_array_index k) \<longrightarrow>
        Object_keys obj = map fst obj \<and> map (prop_get obj) (Object_keys obj) = map snd obj)"
proof (intro conjI impI)
  assume "b_type b = Insert"
  then show "fst (build (data obj b) console) =
        Inr \<lparr> sql = ''INSERT INTO '' @ b_table b @ '' ('' @ join '', '' (Object_keys obj)
                      @ '') VALUES ('' @ join '', '' (map (\<lambda>_. ''?'') (Object_keys obj)) @ '')'',
              params = map (prop_get obj) (Object_keys obj) \<rparr>"
    using assemble_Insert [OF build_head_Insert_data [of b obj]]
    by (simp add: fst_build data_def)
next
  assume u: "b_type b = Update \<and> (b_wheres b \<noteq> [] \<or> b_allowUnsafe b)"
  have "\<forall>obj'. fst (build (data obj' b) console) =
             Inr \<lparr> sql = ''UPDATE '' @ b_table b @ '' SET ''
                           @ join '', '' (map (\<lambda>k. k @ '' = ?'') (Object_keys obj'))
                           @ (where_clause (b_wheres b) @ fst (after_where b)),
                   params = map (prop_get obj') (Object_keys obj')
                           @ (concat (map w_params (b_wheres b)) @ snd (after_where b)) \<rparr>"
  proof
    fix obj'
    have t: "b_type (data obj' b) \<noteq> Insert" using u by (simp add: data_def)
    show "fst (build (data obj' b) console) =
             Inr \<lparr> sql = ''UPDATE '' @ b_table b @ '' SET ''
                           @ join '', '' (map (\<lambda>k. k @ '' = ?'') (Object_keys obj'))
                           @ (where_clause (b_wheres b) @ fst (after_where b)),
                   params = map (prop_get obj') (Object_keys obj')
                           @ (concat (map w_params (b_wheres b)) @ snd (after_where b)) \<rparr>"
      using assemble_eq [OF build_head_Update_data [of b obj'] t] u
      by (simp add: fst_build) (simp add: data_def after_where_data)
  qed
  then show "\<exists>s ps. \<forall>obj'.
           fst (build (data obj' b) console) =
             Inr \<lparr> sql = ''UPDATE '' @ b_table b @ '' SET ''
                           @ join '', '' (map (\<lambda>k. k @ '' = ?'') (Object_keys obj')) @ s,
                   params = map (prop_get obj') (Object_keys obj') @ ps \<rparr>"
    by blast
next
  show "Object_keys obj =
        sort_key index_value (filter is_array_index (map fst obj))
          @ filter (\<lambda>k. \<not> is_array_index k) (map fst obj)"
    by (rule Object_keys_def)
next
  assume h: "distinct (map fst obj) \<and> (\<forall>k \<in> set (map fst obj). \<not> is_array_index k)"
  then show k: "Object_keys obj = map fst obj"
    by (simp add: Object_keys_plain)
  from h have d: "distinct (map fst obj)" by simp
  show "map (prop_get obj) (Object_keys obj) = map snd obj"
    unfolding k by (rule map_prop_get_distinct [OF d])
qed

theorem payload_key_order_witness:
  "fst (build (data [(''name'', PString ''bob''), (''age'', PNumber (Finite 20))]
          (BabySQL_insert ''users'')) [])
     = Inr \<lparr> sql = ''INSERT INTO users (name, age) VALUES (?, ?)'',
             params = [PString ''bob'', PNumber (Finite 20)] \<rparr>"
proof -
  let ?obj = "[(''name'', PString ''bob''), (''age'', PNumber (Finite 20))]"
  have plain: "distinct (map fst ?obj) \<and> (\<forall>k \<in> set (map fst ?obj). \<not> is_array_index k)"
    by (simp add: is_array_index_def is_digit_def)
  have ins: "b_type (BabySQL_insert ''users'') = Insert"
    by (simp add: BabySQL_insert_def new_builder_def)
  note t = payload_key_order [of "BabySQL_insert ''users''" ?obj "[]"]
  from t plain have "Object_keys ?obj = map fst ?obj"
    and "map (prop_get ?obj) (Object_keys ?obj) = map snd ?obj"
    by blast+
  moreover from t ins have "fst (build (data ?obj (BabySQL_insert ''users'')) []) =
        Inr \<lparr> sql = ''INSERT INTO '' @ b_table (BabySQL_insert ''users'') @ '' (''
                      @ join '', '' (Object_keys ?obj)
                      @ '') VALUES ('' @ join '', '' (map (\<lambda>_. ''?'') (Object_keys ?obj)) @ '')'',
              params = map (prop_get ?obj) (Object_keys ?obj) \<rparr>"
    by blast
  ultimately show ?thesis
    by (simp add: BabySQL_insert_def new_builder_def)
qed

text \<open>
  The claim as stated fails for a payload with a key that is an array index: the key
  \<^verbatim>\<open>1\<close>, inserted after \<^verbatim>\<open>b\<close>, comes first in the SQL and in the parameters.
\<close>

theorem payload_order_counterexample:
  "fst (build (data [(''b'', PString ''x''), (''1'', PString ''y'')] (BabySQL_insert ''t'')) [])
     = Inr \<lparr> sql = ''INSERT INTO t (1, b) VALUES (?, ?)'',
             params = [PString ''y'', PString ''x''] \<rparr>"
  by code_simp

subsection \<open>Predicates\<close>

lemma build_head_wheres:
  "b_wheres b \<noteq> [] \<Longrightarrow> xs \<noteq> [] \<Longrightarrow> build_head (b\<lparr> b_wheres := xs \<rparr>) = build_head b"
  by (cases "b_type b"; cases "b_data b"; simp add: build_head_def)

lemma after_where_wheres: "after_where (b\<lparr> b_wheres := xs \<rparr>) = after_where b"
  by (simp add: after_where_def Let_def cong: option.case_cong)

text \<open>
  Claim C3. For a builder that is not an insert, whose list of predicates is \<open>w # ws\<close>
  and whose head is rendered without an error as the text \<open>hs\<close> with the parameters
  \<open>hp\<close>: \<^verbatim>\<open>build\<close> returns \<open>hs\<close>, then \<^verbatim>\<open> WHERE \<close> and the SQL of \<open>w\<close> as it is, then
  for each later fragment, in the order of the list, a space, its connector, a space and
  its SQL, then the ORDER BY and LIMIT/OFFSET sections; the parameters are \<open>hp\<close>, then
  the parameters of the fragments in the order of the list, then those of LIMIT/OFFSET.
  The connector of the first fragment is ignored: changing it changes nothing.
\<close>

theorem where_clause_rendering:
  assumes "b_type b \<noteq> Insert" and "b_wheres b = w # ws" and "build_head b = Inr (hs, hp)"
  shows "fst (build b console) =
     Inr \<lparr> sql = hs @ '' WHERE '' @ w_sql w
                   @ concat (map (\<lambda>x. '' '' @ connector_text (w_connector x) @ '' '' @ w_sql x) ws)
                   @ fst (after_where b),
           params = hp @ concat (map w_params (w # ws)) @ snd (after_where b) \<rparr>
       \<and> fst (build (b\<lparr> b_wheres := w\<lparr> w_connector := c \<rparr> # ws \<rparr>) console)
           = fst (build b console)"
proof
  show r: "fst (build b console) =
     Inr \<lparr> sql = hs @ '' WHERE '' @ w_sql w
                   @ concat (map (\<lambda>x. '' '' @ connector_text (w_connector x) @ '' '' @ w_sql x) ws)
                   @ fst (after_where b),
           params = hp @ concat (map w_params (w # ws)) @ snd (after_where b) \<rparr>"
    using assemble_eq [OF assms(3) assms(1)] assms(2) by (simp add: fst_build)
  let ?b' = "b\<lparr> b_wheres := w\<lparr> w_connector := c \<rparr> # ws \<rparr>"
  have h': "build_head ?b' = Inr (hs, hp)"
    using assms(2,3) by (simp add: build_head_wheres)
  have t': "b_type ?b' \<noteq> Insert"
    using assms(1) by simp
  show "fst (build ?b' console) = fst (build b console)"
    unfolding r using assemble_eq [OF h' t'] by (simp add: fst_build after_where_wheres)
qed

theorem where_clause_rendering_witness:
  "fst (build (where' ''role'' OpEq (PString ''admin'') OR
                (where' ''age'' OpGt (PNumber (Finite 18)) AND
                  (where' ''status'' OpEq (PString ''active'') OR (BabySQL_select ''users'')))) [])
     = Inr \<lparr> sql = ''SELECT * FROM users WHERE status = ? AND age > ? OR role = ?'',
             params = [PString ''active'', PNumber (Finite 18), PString ''admin''] \<rparr>"
proof -
  let ?b = "where' ''role'' OpEq (PString ''admin'') OR
                (where' ''age'' OpGt (PNumber (Finite 18)) AND
                  (where' ''status'' OpEq (PString ''active'') OR (BabySQL_select ''users'')))"
  have t: "b_type ?b \<noteq> Insert"
    by (simp add: where'_def BabySQL_select_def new_builder_def)
  have w: "b_wheres ?b =
      \<lparr> w_sql = ''status = ?'', w_params = [PString ''active''], w_connector = OR \<rparr>
      # [\<lparr> w_sql = ''age > ?'', w_params = [PNumber (Finite 18)], w_connector = AND \<rparr>,
         \<lparr> w_sql = ''role = ?'', w_params = [PString ''admin''], w_connector = OR \<rparr>]"
    by (simp add: where'_def BabySQL_select_def new_builder_def)
  have h: "build_head ?b = Inr (''SELECT * FROM users'', [])"
    by (simp add: build_head_def where'_def BabySQL_select_def new_builder_def)
  have a: "after_where ?b = ([], [])"
    by (simp add: after_where_def where'_def BabySQL_select_def new_builder_def)
  show ?thesis
    using where_clause_rendering [OF t w h, of "[]"] by (simp add: a)
qed

text \<open>
  Claim C10. The fragment that \<^verbatim>\<open>whereIn\<close> appends for an empty array of values counts
  as a predicate for the gate on unsafe statements: without \<^verbatim>\<open>allowUnsafe\<close>, a delete
  with only this fragment renders \<^verbatim>\<open>DELETE FROM <table> WHERE 1=0\<close> with no parameters,
  an update that has its payload renders too, and whatever the builder, after such a call
  \<^verbatim>\<open>build\<close> throws neither of the two errors about a missing WHERE.
\<close>

theorem whereIn_empty_passes_gate:
  "fst (build (whereIn column [] c (BabySQL_delete tbl)) console)
     = Inr \<lparr> sql = ''DELETE FROM '' @ tbl @ '' WHERE 1=0'', params = [] \<rparr>
   \<and> fst (build (whereIn column [] c (data obj (BabySQL_update tbl))) console)
     = Inr \<lparr> sql = ''UPDATE '' @ tbl @ '' SET ''
                   @ join '', '' (map (\<lambda>k. k @ '' = ?'') (Object_keys obj)) @ '' WHERE 1=0'',
             params = map (prop_get obj) (Object_keys obj) \<rparr>
   \<and> \<not> unsafe_statement (whereIn column [] c b)
   \<and> fst (build (whereIn column [] c b) console) \<noteq> Inl UpdateWithoutWhere
   \<and> fst (build (whereIn column [] c b) console) \<noteq> Inl DeleteWithoutWhere"
proof (intro conjI)
  show "fst (build (whereIn column [] c (BabySQL_delete tbl)) console)
     = Inr \<lparr> sql = ''DELETE FROM '' @ tbl @ '' WHERE 1=0'', params = [] \<rparr>"
    by (simp add: fst_build assemble_def build_head_def whereIn_def BabySQL_delete_def
        new_builder_def)
  show "fst (build (whereIn column [] c (data obj (BabySQL_update tbl))) console)
     = Inr \<lparr> sql = ''UPDATE '' @ tbl @ '' SET ''
                   @ join '', '' (map (\<lambda>k. k @ '' = ?'') (Object_keys obj)) @ '' WHERE 1=0'',
             params = map (prop_get obj) (Object_keys obj) \<rparr>"
    by (simp add: fst_build assemble_def build_head_def whereIn_def data_def BabySQL_update_def
        new_builder_def Object_keys_idem map_prop_get_spread Let_def)
  show u: "\<not> unsafe_statement (whereIn column [] c b)"
    by (simp add: unsafe_statement_def whereIn_def)
  have "build_head (whereIn column [] c b) \<noteq> Inl UpdateWithoutWhere"
    "build_head (whereIn column [] c b) \<noteq> Inl DeleteWithoutWhere"
    by (cases "b_type b"; cases "b_data b"; simp add: build_head_def whereIn_def Let_def)+
  then show "fst (build (whereIn column [] c b) console) \<noteq> Inl UpdateWithoutWhere"
    "fst (build (whereIn column [] c b) console) \<noteq> Inl DeleteWithoutWhere"
    by (simp_all add: fst_build assemble_Inl)
qed

theorem whereIn_empty_passes_gate_witness:
  "fst (build (whereIn ''id'' [] AND (BabySQL_delete ''users'')) [])
     = Inr \<lparr> sql = ''DELETE FROM users WHERE 1=0'', params = [] \<rparr>
   \<and> fst (build (whereIn ''id'' [] AND (data [(''age'', PNumber (Finite 26))] (BabySQL_update ''users''))) [])
     = Inr \<lparr> sql = ''UPDATE users SET age = ? WHERE 1=0'', params = [PNumber (Finite 26)] \<rparr>"
proof -
  have "Object_keys [(''age'', PNumber (Finite 26))] = [''age'']"
    by (simp add: Object_keys_def is_array_index_def is_digit_def)
  then show ?thesis
    using whereIn_empty_passes_gate [of "''id''" AND "''users''" "[]" "[(''age'', PNumber (Finite 26))]"]
    by (simp add: prop_get_def)
qed

subsection \<open>Placeholders and parameters\<close>

lemma placeholders_Nil [simp]: "placeholder_count [] = 0"
  by (simp add: placeholder_count_def)

lemma placeholders_Cons [simp]:
  "placeholder_count (c # s) = (if c = CHR ''?'' then 1 else 0) + placeholder_count s"
  by (simp add: placeholder_count_def)

lemma placeholders_append [simp]:
  "placeholder_count (s @ t) = placeholder_count s + placeholder_count t"
  by (simp add: placeholder_count_def)




lemma placeholders_connector [simp]: "placeholder_count (connector_text c) = 0"
  by (cases c) simp_all

lemma placeholders_direction [simp]: "placeholder_count (direction_text d) = 0"
  by (cases d) simp_all




















end
